theory Spec2Isabelle
  imports Complex_Main
begin

section \<open>Vertex data\<close>

text \<open>
  A floating-point value is the real number it denotes, or it is not finite (an infinity
  or a NaN). The two zeros of the format denote the same number. Values of \<open>float32\<close>
  and of \<open>float64\<close> share this type: converting a \<open>float32\<close> to \<open>float64\<close> is exact.
\<close>

datatype float = Finite real | NotFinite

text \<open>
  Modelled from the spec: the types \<open>Vec\<close> and \<open>NRGBA\<close>, which the repository declares
  outside the source file at hand. A \<open>Vec\<close> is a 2D point, a pair of \<open>float64\<close>
  coordinates (\<open>V x y\<close>, read back with \<open>X\<close> and \<open>Y\<close>); an \<open>NRGBA\<close> colour has four
  channels.
\<close>

type_synonym Vec = "float \<times> float"

definition V :: "float \<Rightarrow> float \<Rightarrow> Vec" where
  "V x y = (x, y)"

definition X :: "Vec \<Rightarrow> float" where
  "X v = fst v"

definition Y :: "Vec \<Rightarrow> float" where
  "Y v = snd v"

record NRGBA =
  R :: float
  G :: float
  B :: float
  A :: float

record vertex =
  Position :: Vec
  Color :: NRGBA
  Texture :: Vec

type_synonym TrianglesData = "vertex list"

text \<open>
  The fatal failures of the code: the explicit panic of \<open>Update\<close> and the two run-time
  panics of Go's slices.
\<close>

datatype error = InvalidLength | SliceBoundsOutOfRange | IndexOutOfRange

text \<open>
  The methods mutate their receiver in place. A call either returns, leaving the state
  \<open>Done s\<close>, or panics with the receiver in the state it had reached: \<open>Panic e s\<close>.
\<close>

datatype 's outcome = Done 's | Panic error 's

fun andThen :: "'s outcome \<Rightarrow> ('s \<Rightarrow> 's outcome) \<Rightarrow> 's outcome" where
  "andThen (Done s) f = f s"
| "andThen (Panic e s) f = Panic e s"

fun stateOf :: "'s outcome \<Rightarrow> 's" where
  "stateOf (Done s) = s"
| "stateOf (Panic e s) = s"

fun isDone :: "'s outcome \<Rightarrow> bool" where
  "isDone (Done s) = True"
| "isDone (Panic e s) = False"

definition defaultVertex :: vertex where
  "defaultVertex =
     \<lparr>Position = V (Finite 0) (Finite 0),
      Color = \<lparr>R = Finite 1, G = Finite 1, B = Finite 1, A = Finite 1\<rparr>,
      Texture = V (Finite (- 1)) (Finite (- 1))\<rparr>"

definition Len :: "TrianglesData \<Rightarrow> int" where
  "Len td = int (length td)"

text \<open>The loop of \<open>SetLen\<close>: \<open>needAppend\<close> times, append one default vertex.\<close>

fun appendDefaults :: "nat \<Rightarrow> TrianglesData \<Rightarrow> TrianglesData" where
  "appendDefaults 0 td = td"
| "appendDefaults (Suc k) td = appendDefaults k (td @ [defaultVertex])"

text \<open>
  \<open>SetLen\<close>: grow with default vertices when \<open>len\<close> is greater than the length, then cut
  with \<open>(*td)[:len]\<close> when \<open>len\<close> is smaller. The slice expression panics when its bound is
  negative (a bound below the length never exceeds the capacity).
\<close>

definition SetLen :: "int \<Rightarrow> TrianglesData \<Rightarrow> TrianglesData outcome" where
  "SetLen len td =
     (let td1 = (if len > Len td then appendDefaults (nat (len - Len td)) td else td)
      in if len < Len td1
         then (if len < 0 then Panic SliceBoundsOutOfRange td1 else Done (take (nat len) td1))
         else Done td1)"

definition MakeTrianglesData :: "int \<Rightarrow> TrianglesData outcome" where
  "MakeTrianglesData len = SetLen len []"

text \<open>
  A source of vertex properties (the interface \<open>Triangles\<close>) is either another
  \<open>TrianglesData\<close>, which the type assertion of the fast path recognises, or some other
  implementation: it has a length and offers, or not, each of the three accessors
  \<open>Position\<close>, \<open>Color\<close> and \<open>Texture\<close>. The accessors are those of a well-behaved source:
  they return a value at every index below its length.
\<close>

record source =
  srcLen :: int
  srcPosition :: "(nat \<Rightarrow> Vec) option"
  srcColor :: "(nat \<Rightarrow> NRGBA) option"
  srcTexture :: "(nat \<Rightarrow> Vec) option"

datatype Triangles = Data TrianglesData | Other source

fun TrianglesLen :: "Triangles \<Rightarrow> int" where
  "TrianglesLen (Data t) = Len t"
| "TrianglesLen (Other s) = srcLen s"

text \<open>Go's \<open>copy(dst, src)\<close>: the first \<open>min (len dst) (len src)\<close> elements are overwritten.\<close>

definition copy :: "'a list \<Rightarrow> 'a list \<Rightarrow> 'a list" where
  "copy dst src = take (min (length dst) (length src)) src @ drop (length src) dst"

text \<open>The three loops of the slow path, each \<open>for i := range *td\<close>.\<close>

definition copyPositions :: "(nat \<Rightarrow> Vec) \<Rightarrow> TrianglesData \<Rightarrow> TrianglesData" where
  "copyPositions f td = fold (\<lambda>i d. d[i := (d ! i)\<lparr>Position := f i\<rparr>]) [0..<length td] td"

definition copyColors :: "(nat \<Rightarrow> NRGBA) \<Rightarrow> TrianglesData \<Rightarrow> TrianglesData" where
  "copyColors f td = fold (\<lambda>i d. d[i := (d ! i)\<lparr>Color := f i\<rparr>]) [0..<length td] td"

definition copyTextures :: "(nat \<Rightarrow> Vec) \<Rightarrow> TrianglesData \<Rightarrow> TrianglesData" where
  "copyTextures f td = fold (\<lambda>i d. d[i := (d ! i)\<lparr>Texture := f i\<rparr>]) [0..<length td] td"

fun updateData :: "Triangles \<Rightarrow> TrianglesData \<Rightarrow> TrianglesData" where
  "updateData (Data t) td = copy td t"
| "updateData (Other s) td =
     (let td1 = (case srcPosition s of Some f \<Rightarrow> copyPositions f td | None \<Rightarrow> td);
          td2 = (case srcColor s of Some f \<Rightarrow> copyColors f td1 | None \<Rightarrow> td1);
          td3 = (case srcTexture s of Some f \<Rightarrow> copyTextures f td2 | None \<Rightarrow> td2)
      in td3)"

definition Update :: "Triangles \<Rightarrow> TrianglesData \<Rightarrow> TrianglesData outcome" where
  "Update t td =
     (if Len td \<noteq> TrianglesLen t then Panic InvalidLength td
      else Done (updateData t td))"

section \<open>The drawer: one cached resource per target\<close>

text \<open>
  The targets and their resources (the interfaces \<open>Target\<close> and \<open>TargetTriangles\<close>) belong
  to the rendering backend. The drawer uses three of their operations, which are parameters
  here: \<open>MakeTriangles\<close> creates the resource of a target from the vertex data, and
  \<open>SetLen\<close> and \<open>Update\<close> of a resource change that resource and no other.
\<close>

record ('t, 'r) backend =
  MakeTriangles :: "'t \<Rightarrow> Triangles \<Rightarrow> 'r"
  resSetLen :: "int \<Rightarrow> 'r \<Rightarrow> 'r"
  resUpdate :: "Triangles \<Rightarrow> 'r \<Rightarrow> 'r"

text \<open>
  The state of a \<open>TrianglesDrawer\<close>: the map from targets to their resources (the nil map
  is the empty map) and the dirty flag. \<open>drawLog\<close> records the calls of \<open>tri.Draw()\<close>, the
  target and the resource drawn. The wrapped \<open>Triangles\<close> is held by reference: every
  operation reads its current content, which is the argument \<open>T\<close> below.
\<close>

record ('t, 'r) TrianglesDrawer =
  tris :: "'t \<rightharpoonup> 'r"
  dirty :: bool
  drawLog :: "('t \<times> 'r) list"

definition newDrawer :: "('t, 'r) TrianglesDrawer" where
  "newDrawer = \<lparr>tris = Map.empty, dirty = False, drawLog = []\<rparr>"

definition flush ::
  "('t, 'r) backend \<Rightarrow> Triangles \<Rightarrow> ('t, 'r) TrianglesDrawer \<Rightarrow> ('t, 'r) TrianglesDrawer" where
  "flush be T d =
     (if \<not> dirty d then d
      else d\<lparr>dirty := False,
             tris := (\<lambda>k. map_option (\<lambda>r. resUpdate be T (resSetLen be (TrianglesLen T) r))
                                     (tris d k))\<rparr>)"

definition Draw ::
  "('t, 'r) backend \<Rightarrow> Triangles \<Rightarrow> 't \<Rightarrow> ('t, 'r) TrianglesDrawer \<Rightarrow> ('t, 'r) TrianglesDrawer" where
  "Draw be T target d =
     (let d1 = flush be T d
      in case tris d1 target of
           Some tri \<Rightarrow> d1\<lparr>drawLog := drawLog d1 @ [(target, tri)]\<rparr>
         | None \<Rightarrow>
             (let tri = MakeTriangles be target T
              in d1\<lparr>tris := (tris d1)(target \<mapsto> tri),
                    drawLog := drawLog d1 @ [(target, tri)]\<rparr>))"

definition Dirty :: "('t, 'r) TrianglesDrawer \<Rightarrow> ('t, 'r) TrianglesDrawer" where
  "Dirty d = d\<lparr>dirty := True\<rparr>"

section \<open>Polygon\<close>

record ('t, 'r) Polygon =
  data :: TrianglesData
  td :: "('t, 'r) TrianglesDrawer"
  col :: NRGBA

text \<open>The loop \<open>for i := range p.data { p.data[i].Color = p.col }\<close>.\<close>

definition paint :: "NRGBA \<Rightarrow> TrianglesData \<Rightarrow> TrianglesData" where
  "paint c d = fold (\<lambda>i d. d[i := (d ! i)\<lparr>Color := c\<rparr>]) [0..<length d] d"

text \<open>
  \<open>SetColor\<close>; the conversion \<open>NRGBAModel.Convert\<close> of the colour model is the parameter
  \<open>conv\<close>.
\<close>

definition SetColor :: "('c \<Rightarrow> NRGBA) \<Rightarrow> 'c \<Rightarrow> ('t, 'r) Polygon \<Rightarrow> ('t, 'r) Polygon" where
  "SetColor conv c p =
     (let p1 = p\<lparr>col := conv c\<rparr>;
          p2 = p1\<lparr>data := paint (col p1) (data p1)\<rparr>
      in p2\<lparr>td := Dirty (td p2)\<rparr>)"

definition PolygonColor :: "('t, 'r) Polygon \<Rightarrow> NRGBA" where
  "PolygonColor p = col p"

text \<open>An assignment \<open>p.data[i].Position = v\<close>: the index is checked.\<close>

definition setPosition :: "nat \<Rightarrow> Vec \<Rightarrow> TrianglesData \<Rightarrow> TrianglesData outcome" where
  "setPosition i v d =
     (if i < length d then Done (d[i := (d ! i)\<lparr>Position := v\<rparr>])
      else Panic IndexOutOfRange d)"

text \<open>
  The body of the first loop of \<open>SetPoints\<close> at \<open>i\<close>, and the loop over its indices. The
  loop runs for \<open>2 \<le> i < len(points)\<close>, where the three reads of \<open>points\<close> are in range.
\<close>

definition fanStep :: "Vec list \<Rightarrow> nat \<Rightarrow> TrianglesData \<Rightarrow> TrianglesData outcome" where
  "fanStep points i d =
     andThen (andThen (setPosition ((i - 2) * 3 + 0) (points ! 0) d)
                      (setPosition ((i - 2) * 3 + 1) (points ! (i - 1))))
             (setPosition ((i - 2) * 3 + 2) (points ! i))"

fun fanLoop :: "Vec list \<Rightarrow> nat list \<Rightarrow> TrianglesData \<Rightarrow> TrianglesData outcome" where
  "fanLoop points [] d = Done d"
| "fanLoop points (i # is) d =
     (case fanStep points i d of
        Done d' \<Rightarrow> fanLoop points is d'
      | Panic e d' \<Rightarrow> Panic e d')"

definition SetPoints :: "Vec list \<Rightarrow> ('t, 'r) Polygon \<Rightarrow> ('t, 'r) Polygon outcome" where
  "SetPoints points p =
     (case SetLen (3 * (int (length points) - 2)) (data p) of
        Panic e d \<Rightarrow> Panic e (p\<lparr>data := d\<rparr>)
      | Done d \<Rightarrow>
          (case fanLoop points [2..<length points] d of
             Panic e d' \<Rightarrow> Panic e (p\<lparr>data := d'\<rparr>)
           | Done d' \<Rightarrow> Done (p\<lparr>data := paint (col p) d', td := Dirty (td p)\<rparr>)))"

text \<open>
  \<open>NewPolygon\<close>: the empty buffer, a fresh drawer and the zero colour, then \<open>SetColor\<close> and
  \<open>SetPoints\<close>.
\<close>

definition NewPolygon :: "('c \<Rightarrow> NRGBA) \<Rightarrow> 'c \<Rightarrow> Vec list \<Rightarrow> ('t, 'r) Polygon outcome" where
  "NewPolygon conv c points =
     (let p = \<lparr>data = [], td = newDrawer,
               col = \<lparr>R = Finite 0, G = Finite 0, B = Finite 0, A = Finite 0\<rparr>\<rparr>
      in SetPoints points (SetColor conv c p))"

text \<open>
  \<open>Points\<close>: a new slice of \<open>p.data.Len()\<close> zero vectors, filled with the position of
  every vertex.
\<close>

definition Points :: "('t, 'r) Polygon \<Rightarrow> Vec list" where
  "Points p =
     fold (\<lambda>i points. points[i := Position (data p ! i)]) [0..<length (data p)]
          (replicate (length (data p)) (V (Finite 0) (Finite 0)))"

text \<open>The public operations that change a polygon, and a run of them up to the first panic.\<close>

datatype 'c polygonOp = OpSetColor 'c | OpSetPoints "Vec list"

fun applyOp :: "('c \<Rightarrow> NRGBA) \<Rightarrow> 'c polygonOp \<Rightarrow> ('t, 'r) Polygon \<Rightarrow> ('t, 'r) Polygon outcome" where
  "applyOp conv (OpSetColor c) p = Done (SetColor conv c p)"
| "applyOp conv (OpSetPoints points) p = SetPoints points p"

fun runOps :: "('c \<Rightarrow> NRGBA) \<Rightarrow> 'c polygonOp list \<Rightarrow> ('t, 'r) Polygon \<Rightarrow> ('t, 'r) Polygon outcome" where
  "runOps conv [] p = Done p"
| "runOps conv (ope # ops) p =
     (case applyOp conv ope p of
        Done p' \<Rightarrow> runOps conv ops p'
      | Panic e p' \<Rightarrow> Panic e p')"

text \<open>The invariant of a polygon: every vertex carries the polygon's colour.\<close>

definition uniformColor :: "('t, 'r) Polygon \<Rightarrow> bool" where
  "uniformColor p = list_all (\<lambda>v. Color v = PolygonColor p) (data p)"

section \<open>A backend that keeps copies\<close>

text \<open>
  An example of a backend, used to run the drawer on concrete data: the resource of a
  target is a vertex buffer of its own, created as a copy of the data and kept up to date
  with \<open>SetLen\<close> and \<open>Update\<close> of the buffer.
\<close>

definition copyingBackend :: "(nat, TrianglesData) backend" where
  "copyingBackend =
     \<lparr>MakeTriangles = (\<lambda>target T. updateData T (stateOf (SetLen (TrianglesLen T) []))),
      resSetLen = (\<lambda>n r. stateOf (SetLen n r)),
      resUpdate = (\<lambda>T r. stateOf (Update T r))\<rparr>"

section \<open>Floating-point arithmetic\<close>

text \<open>
  The arithmetic of Go on \<open>float32\<close> and \<open>float64\<close> is that of IEEE 754: the exact result
  is rounded to the nearest value of the format, a tie to the value with an even
  significand. A format has \<open>p\<close> significant bits and the least exponent \<open>emin\<close>, below
  which the spacing of the values no longer shrinks (the subnormal numbers).
\<close>

definition roundHalfEven :: "real \<Rightarrow> int" where
  "roundHalfEven y =
     (let f = \<lfloor>y\<rfloor>
      in if y - of_int f < 1 / 2 then f
         else if 1 / 2 < y - of_int f then f + 1
         else if even f then f else f + 1)"

definition exponent :: "int \<Rightarrow> real \<Rightarrow> int" where
  "exponent emin x = max emin \<lfloor>log 2 \<bar>x\<bar>\<rfloor>"

definition roundTo :: "int \<Rightarrow> int \<Rightarrow> real \<Rightarrow> real" where
  "roundTo p emin x =
     (if x = 0 then 0
      else let u = 2 powr of_int (exponent emin x - (p - 1))
           in of_int (roundHalfEven (x / u)) * u)"

text \<open>
  \<open>float32\<close> has 24 significant bits, least exponent \<open>-126\<close>, and overflows when the
  rounded magnitude reaches \<open>2 ^ 128\<close>; \<open>float64\<close> has 53 bits, least exponent \<open>-1022\<close>, and
  overflows at \<open>2 ^ 1024\<close>.
\<close>

definition toFloat32 :: "real \<Rightarrow> float" where
  "toFloat32 x = (let r = roundTo 24 (- 126) x in if \<bar>r\<bar> < 2 ^ 128 then Finite r else NotFinite)"

definition toFloat64 :: "real \<Rightarrow> float" where
  "toFloat64 x = (let r = roundTo 53 (- 1022) x in if \<bar>r\<bar> < 2 ^ 1024 then Finite r else NotFinite)"

text \<open>
  The conversions \<open>float32(x)\<close> and \<open>float64(x)\<close>, negation, and the operations of the two
  formats. A sum or a product with a value that is not finite is not finite, as in
  IEEE 754. Each operation rounds its own result.
\<close>

fun float32 :: "float \<Rightarrow> float" where
  "float32 (Finite x) = toFloat32 x"
| "float32 NotFinite = NotFinite"

definition float64 :: "float \<Rightarrow> float" where
  "float64 x = x"

fun neg :: "float \<Rightarrow> float" where
  "neg (Finite x) = Finite (- x)"
| "neg NotFinite = NotFinite"

fun add32 :: "float \<Rightarrow> float \<Rightarrow> float" where
  "add32 (Finite x) (Finite y) = toFloat32 (x + y)"
| "add32 _ _ = NotFinite"

fun mul32 :: "float \<Rightarrow> float \<Rightarrow> float" where
  "mul32 (Finite x) (Finite y) = toFloat32 (x * y)"
| "mul32 _ _ = NotFinite"





text \<open>
  \<open>math.Sin\<close> and \<open>math.Cos\<close> of the standard library, taken as the sine and the cosine
  rounded to \<open>float64\<close>. They are exact at 0.
\<close>

fun mathSin :: "float \<Rightarrow> float" where
  "mathSin (Finite x) = toFloat64 (sin x)"
| "mathSin NotFinite = NotFinite"

fun mathCos :: "float \<Rightarrow> float" where
  "mathCos (Finite x) = toFloat64 (cos x)"
| "mathCos NotFinite = NotFinite"


text \<open>The values of \<open>float32\<close>: the reals that the rounding leaves as they are.\<close>

fun isFloat32 :: "float \<Rightarrow> bool" where
  "isFloat32 (Finite x) = (toFloat32 x = Finite x)"
| "isFloat32 NotFinite = True"

section \<open>Matrices of the library mgl32\<close>

text \<open>
  The matrices of the library \<open>mgl32\<close>, as the library defines them. A \<open>Mat3\<close> is an
  array of nine \<open>float32\<close> in column-major order: \<open>Mat3 m0 \<dots> m8\<close> has the first column
  \<open>m0, m1, m2\<close>. A \<open>Vec3\<close> is a triple.
\<close>

datatype Mat3 = Mat3 float float float float float float float float float

type_synonym Vec3 = "float \<times> float \<times> float"

definition Ident3 :: Mat3 where
  "Ident3 = Mat3 (Finite 1) (Finite 0) (Finite 0)
                 (Finite 0) (Finite 1) (Finite 0)
                 (Finite 0) (Finite 0) (Finite 1)"

definition Translate2D :: "float \<Rightarrow> float \<Rightarrow> Mat3" where
  "Translate2D Tx Ty = Mat3 (Finite 1) (Finite 0) (Finite 0)
                            (Finite 0) (Finite 1) (Finite 0)
                            Tx Ty (Finite 1)"

definition Scale2D :: "float \<Rightarrow> float \<Rightarrow> Mat3" where
  "Scale2D scaleX scaleY = Mat3 scaleX (Finite 0) (Finite 0)
                                (Finite 0) scaleY (Finite 0)
                                (Finite 0) (Finite 0) (Finite 1)"

definition Rotate3DZ :: "float \<Rightarrow> Mat3" where
  "Rotate3DZ angle =
     (let s = float32 (mathSin (float64 angle));
          c = float32 (mathCos (float64 angle))
      in Mat3 c s (Finite 0)
              (neg s) c (Finite 0)
              (Finite 0) (Finite 0) (Finite 1))"

text \<open>A row of the left matrix times a column of the right one: \<open>a*x + b*y + c*z\<close>.\<close>

definition dot3 :: "float \<Rightarrow> float \<Rightarrow> float \<Rightarrow> float \<Rightarrow> float \<Rightarrow> float \<Rightarrow> float" where
  "dot3 a x b y c z = add32 (add32 (mul32 a x) (mul32 b y)) (mul32 c z)"

fun Mul3 :: "Mat3 \<Rightarrow> Mat3 \<Rightarrow> Mat3" where
  "Mul3 (Mat3 a0 a1 a2 a3 a4 a5 a6 a7 a8) (Mat3 b0 b1 b2 b3 b4 b5 b6 b7 b8) =
     Mat3 (dot3 a0 b0 a3 b1 a6 b2) (dot3 a1 b0 a4 b1 a7 b2) (dot3 a2 b0 a5 b1 a8 b2)
          (dot3 a0 b3 a3 b4 a6 b5) (dot3 a1 b3 a4 b4 a7 b5) (dot3 a2 b3 a5 b4 a8 b5)
          (dot3 a0 b6 a3 b7 a6 b8) (dot3 a1 b6 a4 b7 a7 b8) (dot3 a2 b6 a5 b7 a8 b8)"

fun Mul3x1 :: "Mat3 \<Rightarrow> Vec3 \<Rightarrow> Vec3" where
  "Mul3x1 (Mat3 a0 a1 a2 a3 a4 a5 a6 a7 a8) (v0, v1, v2) =
     (dot3 a0 v0 a3 v1 a6 v2, dot3 a1 v0 a4 v1 a7 v2, dot3 a2 v0 a5 v1 a8 v2)"

section \<open>Transform\<close>

record Transform =
  pos :: Vec
  anc :: Vec
  sca :: Vec
  rot :: float

text \<open>The methods of \<open>Transform\<close> used below; each returns a changed copy.\<close>

definition Transform_Position :: "Transform \<Rightarrow> Vec \<Rightarrow> Transform" where
  "Transform_Position t p = t\<lparr>pos := p\<rparr>"


definition Transform_Scale :: "Transform \<Rightarrow> float \<Rightarrow> Transform" where
  "Transform_Scale t scale = t\<lparr>sca := V scale scale\<rparr>"



definition Transform_Rotation :: "Transform \<Rightarrow> float \<Rightarrow> Transform" where
  "Transform_Rotation t angle = t\<lparr>rot := angle\<rparr>"

text \<open>\<open>ZT\<close> is the zero value of the struct with the scale set to 1.\<close>

definition ZT :: Transform where
  "ZT = Transform_Scale
          \<lparr>pos = V (Finite 0) (Finite 0), anc = V (Finite 0) (Finite 0),
           sca = V (Finite 0) (Finite 0), rot = Finite 0\<rparr>
          (Finite 1)"


definition Mat :: "Transform \<Rightarrow> Mat3" where
  "Mat t =
     (let mat = Ident3;
          mat = Mul3 mat (Translate2D (float32 (X (pos t))) (float32 (Y (pos t))));
          mat = Mul3 mat (Rotate3DZ (float32 (rot t)));
          mat = Mul3 mat (Scale2D (float32 (X (sca t))) (float32 (Y (sca t))));
          mat = Mul3 mat (Translate2D (float32 (neg (X (anc t)))) (float32 (neg (Y (anc t)))))
      in mat)"

definition Project :: "Transform \<Rightarrow> Vec \<Rightarrow> Vec" where
  "Project t v =
     (let mat = Mat t;
          vec = (float32 (X v), float32 (Y v), Finite 1);
          pro = Mul3x1 mat vec
      in V (float64 (fst pro)) (float64 (fst (snd pro))))"


section \<open>Properties of the vertex buffer\<close>

lemma length_appendDefaults: "length (appendDefaults k buf) = length buf + k"
  by (induction k arbitrary: buf) simp_all

lemma Len_nonneg: "0 \<le> Len buf"
  by (simp add: Len_def)

lemma fold_update_length:
  "length (fold (\<lambda>i d. d[i := g i (d ! i)]) is buf) = length buf"
  by (induction "is" arbitrary: buf) simp_all

lemma fold_update_nth_upt:
  "n \<le> length buf \<Longrightarrow> k < length buf \<Longrightarrow>
   fold (\<lambda>i d. d[i := g i (d ! i)]) [0..<n] buf ! k = (if k < n then g k (buf ! k) else buf ! k)"
proof (induction n arbitrary: k)
  case 0
  then show ?case by simp
next
  case (Suc n)
  let ?d = "fold (\<lambda>i d. d[i := g i (d ! i)]) [0..<n] buf"
  have len: "length ?d = length buf" by (rule fold_update_length)
  from Suc.prems have nle: "n \<le> length buf" and nlt: "n < length buf" by simp_all
  have ih: "?d ! k = (if k < n then g k (buf ! k) else buf ! k)"
    using Suc.IH [OF nle Suc.prems(2)] .
  have ihn: "?d ! n = buf ! n"
    using Suc.IH [OF nle nlt] by simp
  show ?case
  proof (cases "k = n")
    case True
    with Suc.prems len ihn show ?thesis by simp
  next
    case False
    with Suc.prems len ih show ?thesis by (simp add: less_Suc_eq)
  qed
qed

lemma fold_update_map:
  "fold (\<lambda>i d. d[i := g i (d ! i)]) [0..<length buf] buf = map (\<lambda>i. g i (buf ! i)) [0..<length buf]"
  by (rule nth_equalityI) (simp_all add: fold_update_length fold_update_nth_upt)

lemma copyPositions_map:
  "copyPositions f buf = map (\<lambda>i. (buf ! i)\<lparr>Position := f i\<rparr>) [0..<length buf]"
  unfolding copyPositions_def by (rule fold_update_map)

lemma copyColors_map:
  "copyColors f buf = map (\<lambda>i. (buf ! i)\<lparr>Color := f i\<rparr>) [0..<length buf]"
  unfolding copyColors_def by (rule fold_update_map)

lemma copyTextures_map:
  "copyTextures f buf = map (\<lambda>i. (buf ! i)\<lparr>Texture := f i\<rparr>) [0..<length buf]"
  unfolding copyTextures_def by (rule fold_update_map)

lemma SetLen_negative: "n < 0 \<Longrightarrow> SetLen n buf = Panic SliceBoundsOutOfRange buf"
  by (simp add: SetLen_def Len_def)

lemma SetLen_result:
  "0 \<le> n \<Longrightarrow> \<exists>buf'. SetLen n buf = Done buf' \<and> length buf' = nat n"
  by (auto simp add: SetLen_def Len_def length_appendDefaults Let_def)

text \<open>
  C10: a negative length is a fatal failure of \<open>SetLen\<close> on every buffer, and so of
  \<open>MakeTrianglesData\<close>: the slice bound is out of range. The buffer is left as it was;
  a length is never negative, whatever \<open>SetLen\<close> was asked.
\<close>

theorem SetLen_negative_panics:
  "n < 0 \<Longrightarrow>
     SetLen n buf = Panic SliceBoundsOutOfRange buf \<and>
     MakeTrianglesData n = Panic SliceBoundsOutOfRange [] \<and>
     0 \<le> Len buf \<and> 0 \<le> Len (stateOf (SetLen m buf))"
  by (simp add: SetLen_negative MakeTrianglesData_def Len_nonneg)

theorem SetLen_negative_panics_witness:
  "(- 3 :: int) < 0 \<and>
   SetLen (- 3) [defaultVertex] = Panic SliceBoundsOutOfRange [defaultVertex] \<and>
   MakeTrianglesData (- 3) = Panic SliceBoundsOutOfRange [] \<and>
   0 \<le> Len [defaultVertex] \<and> 0 \<le> Len (stateOf (SetLen 2 [defaultVertex]))"
  using SetLen_negative_panics [of "- 3" "[defaultVertex]" 2] by simp

text \<open>
  C4: \<open>Update\<close> fails with \<open>InvalidLength\<close> exactly when the length of the source differs
  from the length of the buffer, and it succeeds exactly when the two lengths are equal.
\<close>

theorem Update_InvalidLength_iff:
  "(Update t buf = Panic InvalidLength buf \<longleftrightarrow> TrianglesLen t \<noteq> Len buf) \<and>
   (isDone (Update t buf) \<longleftrightarrow> TrianglesLen t = Len buf)"
  by (auto simp add: Update_def)

text \<open>
  C9: a failed \<open>Update\<close> has copied nothing: when the lengths differ the call panics and
  the buffer is what it was before the call.
\<close>

theorem Update_failure_atomic:
  "TrianglesLen t \<noteq> Len buf \<Longrightarrow>
     \<not> isDone (Update t buf) \<and> stateOf (Update t buf) = buf"
  by (simp add: Update_def)

theorem Update_failure_atomic_witness:
  "TrianglesLen (Data []) \<noteq> Len [defaultVertex] \<and>
   \<not> isDone (Update (Data []) [defaultVertex]) \<and>
   stateOf (Update (Data []) [defaultVertex]) = [defaultVertex]"
proof -
  have h: "TrianglesLen (Data []) \<noteq> Len [defaultVertex]" by (simp add: Len_def)
  from Update_failure_atomic [OF h] h show ?thesis by simp
qed

text \<open>
  C5: a source of the same length that offers positions only: \<open>Update\<close> succeeds, every
  vertex takes the position the source gives at its index, and keeps its colour and its
  texture coordinate.
\<close>

theorem Update_position_only:
  assumes len: "srcLen s = Len buf"
    and pos: "srcPosition s = Some f"
    and ncol: "srcColor s = None"
    and ntex: "srcTexture s = None"
  shows "\<exists>buf'. Update (Other s) buf = Done buf' \<and> length buf' = length buf \<and>
           (\<forall>i<length buf. Position (buf' ! i) = f i \<and>
                            Color (buf' ! i) = Color (buf ! i) \<and>
                            Texture (buf' ! i) = Texture (buf ! i))"
  using assms by (simp add: Update_def copyPositions_map)

theorem Update_position_only_witness:
  "srcLen \<lparr>srcLen = 2, srcPosition = Some (\<lambda>i. V (Finite (real i)) (Finite 7)),
           srcColor = None, srcTexture = None\<rparr> = Len [defaultVertex, defaultVertex] \<and>
   (\<exists>buf'. Update (Other \<lparr>srcLen = 2, srcPosition = Some (\<lambda>i. V (Finite (real i)) (Finite 7)),
           srcColor = None, srcTexture = None\<rparr>) [defaultVertex, defaultVertex] = Done buf' \<and>
      Position (buf' ! 1) = V (Finite 1) (Finite 7) \<and>
      Color (buf' ! 1) = Color defaultVertex \<and> Texture (buf' ! 1) = Texture defaultVertex)"
proof -
  let ?s = "\<lparr>srcLen = 2, srcPosition = Some (\<lambda>i. V (Finite (real i)) (Finite 7)),
           srcColor = None, srcTexture = None\<rparr>"
  have l: "srcLen ?s = Len [defaultVertex, defaultVertex]" by (simp add: Len_def)
  from Update_position_only [OF l, of "\<lambda>i. V (Finite (real i)) (Finite 7)"]
  obtain buf' where u: "Update (Other ?s) [defaultVertex, defaultVertex] = Done buf'"
    and a: "\<forall>i<length [defaultVertex, defaultVertex].
              Position (buf' ! i) = V (Finite (real i)) (Finite 7) \<and>
              Color (buf' ! i) = Color ([defaultVertex, defaultVertex] ! i) \<and>
              Texture (buf' ! i) = Texture ([defaultVertex, defaultVertex] ! i)"
    by auto
  from a [rule_format, of 1] have "Position (buf' ! 1) = V (Finite 1) (Finite 7) \<and>
      Color (buf' ! 1) = Color defaultVertex \<and> Texture (buf' ! 1) = Texture defaultVertex"
    by simp
  with l u show ?thesis by blast
qed

section \<open>Properties of the polygon\<close>

lemma paint_upt: "paint c buf = map (\<lambda>i. (buf ! i)\<lparr>Color := c\<rparr>) [0..<length buf]"
  unfolding paint_def by (rule fold_update_map)

lemma paint_map: "paint c buf = map (\<lambda>v. v\<lparr>Color := c\<rparr>) buf"
  unfolding paint_upt by (rule nth_equalityI) simp_all

lemma Points_map: "Points p = map Position (data p)"
proof -
  have "\<And>n buf. n \<le> length buf \<Longrightarrow>
          fold (\<lambda>i points. points[i := Position (data p ! i)]) [0..<n] buf =
          map (\<lambda>i. Position (data p ! i)) [0..<n] @ drop n buf"
  proof -
    fix n and buf :: "Vec list"
    show "n \<le> length buf \<Longrightarrow>
          fold (\<lambda>i points. points[i := Position (data p ! i)]) [0..<n] buf =
          map (\<lambda>i. Position (data p ! i)) [0..<n] @ drop n buf"
    proof (induction n)
      case 0
      then show ?case by simp
    next
      case (Suc n)
      then have "n < length buf" by simp
      then have "drop n buf = buf ! n # drop (Suc n) buf"
        by (simp add: Cons_nth_drop_Suc)
      with Suc show ?case by (simp add: list_update_append)
    qed
  qed
  from this [of "length (data p)" "replicate (length (data p)) (V (Finite 0) (Finite 0))"]
  have "Points p = map (\<lambda>i. Position (data p ! i)) [0..<length (data p)]"
    unfolding Points_def by simp
  also have "\<dots> = map Position (data p)"
    by (rule nth_equalityI) simp_all
  finally show ?thesis .
qed

lemma setPosition_ok:
  "i < length buf \<Longrightarrow>
   \<exists>buf'. setPosition i v buf = Done buf' \<and> length buf' = length buf"
  by (simp add: setPosition_def)

lemma fanStep_ok:
  assumes "(i - 2) * 3 + 2 < length buf"
  shows "\<exists>buf'. fanStep points i buf = Done buf' \<and> length buf' = length buf"
proof -
  from assms have a: "(i - 2) * 3 + 0 < length buf" by simp
  from setPosition_ok [OF a] obtain b1 where
    s1: "setPosition ((i - 2) * 3 + 0) (points ! 0) buf = Done b1" and l1: "length b1 = length buf"
    by blast
  from assms l1 have b: "(i - 2) * 3 + 1 < length b1" by simp
  from setPosition_ok [OF b] obtain b2 where
    s2: "setPosition ((i - 2) * 3 + 1) (points ! (i - 1)) b1 = Done b2" and l2: "length b2 = length b1"
    by blast
  from assms l1 l2 have c: "(i - 2) * 3 + 2 < length b2" by simp
  from setPosition_ok [OF c] obtain b3 where
    s3: "setPosition ((i - 2) * 3 + 2) (points ! i) b2 = Done b3" and l3: "length b3 = length b2"
    by blast
  show ?thesis unfolding fanStep_def s1 andThen.simps s2 s3 using l1 l2 l3 by simp
qed

lemma fanLoop_ok:
  "\<forall>i\<in>set is. (i - 2) * 3 + 2 < length buf \<Longrightarrow>
   \<exists>buf'. fanLoop points is buf = Done buf' \<and> length buf' = length buf"
proof (induction "is" arbitrary: buf)
  case Nil
  then show ?case by simp
next
  case (Cons i "is")
  from Cons.prems have "(i - 2) * 3 + 2 < length buf" by simp
  from fanStep_ok [OF this] obtain b1 where
    s: "fanStep points i buf = Done b1" and l: "length b1 = length buf" by blast
  from Cons.prems l have "\<forall>j\<in>set is. (j - 2) * 3 + 2 < length b1" by simp
  from Cons.IH [OF this] s l show ?case by auto
qed

lemma SetPoints_ok:
  assumes "2 \<le> length points"
  shows "\<exists>buf'. SetPoints points p = Done (p\<lparr>data := paint (col p) buf', td := Dirty (td p)\<rparr>) \<and>
           length buf' = 3 * (length points - 2)"
proof -
  from assms have "0 \<le> 3 * (int (length points) - 2)" by simp
  from SetLen_result [OF this, of "data p"] obtain b1 where
    s: "SetLen (3 * (int (length points) - 2)) (data p) = Done b1"
    and l: "length b1 = nat (3 * (int (length points) - 2))" by blast
  from l assms have l': "length b1 = 3 * (length points - 2)" by (simp add: nat_mult_distrib) 
  have "\<forall>i\<in>set [2..<length points]. (i - 2) * 3 + 2 < length b1"
    using l' by auto
  from fanLoop_ok [OF this] obtain b2 where
    f: "fanLoop points [2..<length points] b1 = Done b2" and l2: "length b2 = length b1" by blast
  have "SetPoints points p = Done (p\<lparr>data := paint (col p) b2, td := Dirty (td p)\<rparr>)"
    by (simp only: SetPoints_def s f outcome.simps)
  moreover from l2 l' have "length b2 = 3 * (length points - 2)" by simp
  ultimately show ?thesis by (intro exI [of _ b2] conjI)
qed

lemma SetPoints_panics:
  assumes "length points < 2"
  shows "SetPoints points p = Panic SliceBoundsOutOfRange p"
proof -
  from assms have "3 * (int (length points) - 2) < 0" by simp
  from SetLen_negative [OF this] show ?thesis by (simp add: SetPoints_def)
qed

lemma uniformColor_paint: "uniformColor (p\<lparr>data := paint (col p) buf, td := d\<rparr>)"
  by (simp add: uniformColor_def PolygonColor_def paint_map list_all_iff)

lemma uniformColor_SetColor: "uniformColor (SetColor conv c p)"
  by (simp add: SetColor_def uniformColor_def PolygonColor_def paint_map list_all_iff Dirty_def Let_def)

lemma uniformColor_SetPoints:
  "uniformColor p \<Longrightarrow> uniformColor (stateOf (SetPoints points p))"
proof (cases "2 \<le> length points")
  case True
  from SetPoints_ok [OF True, of p] obtain b where
    "SetPoints points p = Done (p\<lparr>data := paint (col p) b, td := Dirty (td p)\<rparr>)" by blast
  then show ?thesis by (simp add: uniformColor_paint)
next
  case False
  assume "uniformColor p"
  with False show ?thesis by (simp add: SetPoints_panics)
qed

lemma uniformColor_applyOp:
  "uniformColor p \<Longrightarrow> uniformColor (stateOf (applyOp conv ope p))"
  by (cases ope) (simp_all add: uniformColor_SetColor uniformColor_SetPoints)

lemma uniformColor_runOps:
  "uniformColor p \<Longrightarrow> uniformColor (stateOf (runOps conv ops p))"
proof (induction ops arbitrary: p)
  case Nil
  then show ?case by simp
next
  case (Cons ope ops)
  from uniformColor_applyOp [OF Cons.prems, of conv ope]
  have u: "uniformColor (stateOf (applyOp conv ope p))" .
  show ?case
  proof (cases "applyOp conv ope p")
    case (Done p')
    with u Cons.IH [of p'] show ?thesis by simp
  next
    case (Panic e p')
    with u show ?thesis by simp
  qed
qed

text \<open>
  C8: on a polygon that \<open>NewPolygon\<close> returned, and after any run of \<open>SetColor\<close> and
  \<open>SetPoints\<close> on it (up to a panic, if one of them panics), every vertex of the buffer
  carries the colour that \<open>Color()\<close> returns.
\<close>

theorem Polygon_uniform_color:
  "isDone (NewPolygon conv c points :: ('t, 'r) Polygon outcome) \<Longrightarrow>
     uniformColor (stateOf (NewPolygon conv c points :: ('t, 'r) Polygon outcome)) \<and>
     uniformColor (stateOf (runOps conv ops
        (stateOf (NewPolygon conv c points :: ('t, 'r) Polygon outcome))))"
proof -
  let ?p0 = "SetColor conv c (\<lparr>data = [], td = newDrawer,
               col = \<lparr>R = Finite 0, G = Finite 0, B = Finite 0, A = Finite 0\<rparr>\<rparr>
               :: ('t, 'r) Polygon)"
  have "uniformColor (stateOf (SetPoints points ?p0))"
    by (rule uniformColor_SetPoints) (rule uniformColor_SetColor)
  then have "uniformColor (stateOf (NewPolygon conv c points :: ('t, 'r) Polygon outcome))"
    by (simp add: NewPolygon_def Let_def)
  with uniformColor_runOps show ?thesis by blast
qed

lemma NewPolygon_isDone:
  "2 \<le> length points \<Longrightarrow> isDone (NewPolygon conv c points :: ('t, 'r) Polygon outcome)"
proof -
  assume h: "2 \<le> length points"
  let ?p0 = "SetColor conv c (\<lparr>data = [], td = newDrawer,
               col = \<lparr>R = Finite 0, G = Finite 0, B = Finite 0, A = Finite 0\<rparr>\<rparr>
               :: ('t, 'r) Polygon)"
  from SetPoints_ok [OF h, of ?p0] obtain b where
    "SetPoints points ?p0 = Done (?p0\<lparr>data := paint (col ?p0) b, td := Dirty (td ?p0)\<rparr>)"
    by blast
  then show ?thesis by (simp add: NewPolygon_def Let_def)
qed

theorem Polygon_uniform_color_witness:
  "isDone (NewPolygon (\<lambda>c. c) \<lparr>R = Finite 1, G = Finite 0, B = Finite 0, A = Finite 1\<rparr>
             [V (Finite 0) (Finite 0), V (Finite 1) (Finite 0), V (Finite 1) (Finite 1)]
           :: (unit, unit) Polygon outcome) \<and>
   uniformColor (stateOf (runOps (\<lambda>c. c)
      [OpSetPoints [V (Finite 0) (Finite 0), V (Finite 2) (Finite 0), V (Finite 2) (Finite 2),
                    V (Finite 0) (Finite 2)],
       OpSetColor \<lparr>R = Finite 0, G = Finite 0, B = Finite 1, A = Finite 1\<rparr>]
      (stateOf (NewPolygon (\<lambda>c. c) \<lparr>R = Finite 1, G = Finite 0, B = Finite 0, A = Finite 1\<rparr>
             [V (Finite 0) (Finite 0), V (Finite 1) (Finite 0), V (Finite 1) (Finite 1)]
           :: (unit, unit) Polygon outcome))))"
proof -
  have h: "isDone (NewPolygon (\<lambda>c. c) \<lparr>R = Finite 1, G = Finite 0, B = Finite 0, A = Finite 1\<rparr>
             [V (Finite 0) (Finite 0), V (Finite 1) (Finite 0), V (Finite 1) (Finite 1)]
           :: (unit, unit) Polygon outcome)"
    by (rule NewPolygon_isDone) simp
  from Polygon_uniform_color [OF h] h show ?thesis by blast
qed

text \<open>
  C1, on a polygon of four points: \<open>Points\<close> returns the position of every vertex of the
  buffer, that is the three corners of each triangle of the fan. For the four points
  \<open>P0, P1, P2, P3\<close> it returns the six points \<open>P0, P1, P2, P0, P2, P3\<close> and not the four
  points that were supplied.
\<close>

theorem Points_of_four_point_polygon:
  "Points (stateOf (NewPolygon (\<lambda>c. c) \<lparr>R = Finite 1, G = Finite 0, B = Finite 0, A = Finite 1\<rparr>
            [V (Finite 0) (Finite 0), V (Finite 1) (Finite 0), V (Finite 1) (Finite 1),
             V (Finite 0) (Finite 1)]
           :: (unit, unit) Polygon outcome)) =
     [V (Finite 0) (Finite 0), V (Finite 1) (Finite 0), V (Finite 1) (Finite 1),
      V (Finite 0) (Finite 0), V (Finite 1) (Finite 1), V (Finite 0) (Finite 1)] \<and>
   isDone (NewPolygon (\<lambda>c. c) \<lparr>R = Finite 1, G = Finite 0, B = Finite 0, A = Finite 1\<rparr>
            [V (Finite 0) (Finite 0), V (Finite 1) (Finite 0), V (Finite 1) (Finite 1),
             V (Finite 0) (Finite 1)]
           :: (unit, unit) Polygon outcome) \<and>
   Points (stateOf (NewPolygon (\<lambda>c. c) \<lparr>R = Finite 1, G = Finite 0, B = Finite 0, A = Finite 1\<rparr>
            [V (Finite 0) (Finite 0), V (Finite 1) (Finite 0), V (Finite 1) (Finite 1),
             V (Finite 0) (Finite 1)]
           :: (unit, unit) Polygon outcome)) \<noteq>
     [V (Finite 0) (Finite 0), V (Finite 1) (Finite 0), V (Finite 1) (Finite 1),
      V (Finite 0) (Finite 1)]"
  by (simp add: Points_map NewPolygon_def SetPoints_def SetColor_def SetLen_def Len_def paint_map
      fanStep_def setPosition_def Let_def upt_rec eval_nat_numeral defaultVertex_def)

text \<open>
  C3 as stated fails: with no point, or with one point, \<open>SetPoints\<close> does not complete.
  \<open>SetLen\<close> is called with the negative length \<open>3 * (N - 2)\<close> and panics.
\<close>

theorem SetPoints_fewer_than_two_counterexample:
  "SetPoints [] (\<lparr>data = [], td = newDrawer,
                  col = \<lparr>R = Finite 1, G = Finite 1, B = Finite 1, A = Finite 1\<rparr>\<rparr>
                 :: (unit, unit) Polygon)
     = Panic SliceBoundsOutOfRange
         \<lparr>data = [], td = newDrawer,
          col = \<lparr>R = Finite 1, G = Finite 1, B = Finite 1, A = Finite 1\<rparr>\<rparr> \<and>
   \<not> isDone (SetPoints [V (Finite 0) (Finite 0)]
       (\<lparr>data = [], td = newDrawer,
         col = \<lparr>R = Finite 1, G = Finite 1, B = Finite 1, A = Finite 1\<rparr>\<rparr> :: (unit, unit) Polygon))"
  by (simp add: SetPoints_def SetLen_def Len_def)

text \<open>
  C3, amended: with fewer than two points \<open>SetPoints\<close> is a fatal failure (the slice
  bound is out of range) and leaves the polygon as it was; with exactly two points it
  completes without error and leaves the vertex buffer empty.
\<close>

theorem SetPoints_degenerate:
  "(length points < 2 \<longrightarrow> SetPoints points p = Panic SliceBoundsOutOfRange p) \<and>
   (length points = 2 \<longrightarrow>
      isDone (SetPoints points p) \<and> data (stateOf (SetPoints points p)) = [])"
proof (intro conjI impI)
  assume "length points < 2"
  then show "SetPoints points p = Panic SliceBoundsOutOfRange p" by (rule SetPoints_panics)
next
  assume l: "length points = 2"
  then have "2 \<le> length points" by simp
  from SetPoints_ok [OF this, of p] l obtain b where
    s: "SetPoints points p = Done (p\<lparr>data := paint (col p) b, td := Dirty (td p)\<rparr>)"
    and "length b = 0" by auto
  then have "b = []" by simp
  with s show "isDone (SetPoints points p)"
    and "data (stateOf (SetPoints points p)) = []" by (simp_all add: paint_map)
qed

theorem SetPoints_degenerate_witness:
  "length [V (Finite 0) (Finite 0)] < 2 \<and>
   SetPoints [V (Finite 0) (Finite 0)]
     (\<lparr>data = [defaultVertex, defaultVertex, defaultVertex], td = newDrawer,
       col = \<lparr>R = Finite 1, G = Finite 1, B = Finite 1, A = Finite 1\<rparr>\<rparr> :: (unit, unit) Polygon)
     = Panic SliceBoundsOutOfRange
         \<lparr>data = [defaultVertex, defaultVertex, defaultVertex], td = newDrawer,
          col = \<lparr>R = Finite 1, G = Finite 1, B = Finite 1, A = Finite 1\<rparr>\<rparr> \<and>
   length [V (Finite 0) (Finite 0), V (Finite 1) (Finite 0)] = 2 \<and>
   isDone (SetPoints [V (Finite 0) (Finite 0), V (Finite 1) (Finite 0)]
     (\<lparr>data = [defaultVertex, defaultVertex, defaultVertex], td = newDrawer,
       col = \<lparr>R = Finite 1, G = Finite 1, B = Finite 1, A = Finite 1\<rparr>\<rparr> :: (unit, unit) Polygon)) \<and>
   data (stateOf (SetPoints [V (Finite 0) (Finite 0), V (Finite 1) (Finite 0)]
     (\<lparr>data = [defaultVertex, defaultVertex, defaultVertex], td = newDrawer,
       col = \<lparr>R = Finite 1, G = Finite 1, B = Finite 1, A = Finite 1\<rparr>\<rparr> :: (unit, unit) Polygon))) = []"
proof -
  let ?p = "\<lparr>data = [defaultVertex, defaultVertex, defaultVertex], td = newDrawer,
       col = \<lparr>R = Finite 1, G = Finite 1, B = Finite 1, A = Finite 1\<rparr>\<rparr> :: (unit, unit) Polygon"
  have h1: "length [V (Finite 0) (Finite 0)] < 2" by simp
  have h2: "length [V (Finite 0) (Finite 0), V (Finite 1) (Finite 0)] = 2" by simp
  from SetPoints_degenerate [of "[V (Finite 0) (Finite 0)]" ?p] h1
  have a: "SetPoints [V (Finite 0) (Finite 0)] ?p = Panic SliceBoundsOutOfRange ?p" by blast
  from SetPoints_degenerate [of "[V (Finite 0) (Finite 0), V (Finite 1) (Finite 0)]" ?p] h2
  have b: "isDone (SetPoints [V (Finite 0) (Finite 0), V (Finite 1) (Finite 0)] ?p) \<and>
     data (stateOf (SetPoints [V (Finite 0) (Finite 0), V (Finite 1) (Finite 0)] ?p)) = []" by blast
  from a b h1 h2 show ?thesis by blast
qed

section \<open>Properties of the drawer\<close>

lemma flush_Dirty:
  "flush be T (Dirty d) =
     d\<lparr>dirty := False,
       tris := (\<lambda>k. map_option (\<lambda>r. resUpdate be T (resSetLen be (TrianglesLen T) r)) (tris d k))\<rparr>"
  by (simp add: flush_def Dirty_def)

lemma Draw_dom: "dom (tris (Draw be T x d)) = insert x (dom (tris d))"
  by (auto simp add: Draw_def flush_def Let_def dom_def split: option.splits if_splits)

text \<open>
  C7: a drawer has been drawn to two distinct targets \<open>a\<close> and \<open>b\<close>; then the data
  changes (its content is now \<open>T\<close>), \<open>Dirty\<close> is called and a draw is issued to one of the
  two targets. After that draw the drawer is clean, no resource was added or dropped, and
  the resource of every target drawn to before, not only of the target of this draw, has
  been resized to the length of \<open>T\<close> and then updated from \<open>T\<close>.
\<close>

theorem Draw_after_Dirty_updates_every_target:
  assumes d1: "d1 = Draw be S b (Draw be S a d0)"
    and ab: "a \<noteq> b"
    and x: "x = a \<or> x = b"
    and d2: "d2 = Draw be T x (Dirty d1)"
  shows "dom (tris d2) = dom (tris d1) \<and> a \<in> dom (tris d2) \<and> b \<in> dom (tris d2) \<and>
         \<not> dirty d2 \<and>
         (\<forall>k r. tris d1 k = Some r \<longrightarrow>
                 tris d2 k = Some (resUpdate be T (resSetLen be (TrianglesLen T) r)))"
proof -
  have dom1: "dom (tris d1) = insert b (insert a (dom (tris d0)))"
    unfolding d1 by (simp add: Draw_dom)
  then have xin: "x \<in> dom (tris d1)" using x by auto
  then obtain rx where rx: "tris d1 x = Some rx" by auto
  let ?f = "\<lambda>r. resUpdate be T (resSetLen be (TrianglesLen T) r)"
  have fl: "flush be T (Dirty d1) = d1\<lparr>dirty := False, tris := (\<lambda>k. map_option ?f (tris d1 k))\<rparr>"
    by (rule flush_Dirty)
  have e: "d2 = (d1\<lparr>dirty := False, tris := (\<lambda>k. map_option ?f (tris d1 k))\<rparr>)
                  \<lparr>drawLog := drawLog d1 @ [(x, ?f rx)]\<rparr>"
    unfolding d2 Draw_def fl by (simp add: rx)
  have t2: "tris d2 = (\<lambda>k. map_option ?f (tris d1 k))" and nd: "\<not> dirty d2"
    unfolding e by simp_all
  have "dom (tris d2) = dom (tris d1)" unfolding t2 by (auto simp add: dom_def)
  with dom1 t2 nd show ?thesis by auto
qed

theorem Draw_after_Dirty_updates_every_target_witness:
  "(1::nat) \<noteq> 2 \<and>
   tris (Draw copyingBackend (Data [defaultVertex, defaultVertex]) 1
          (Dirty (Draw copyingBackend (Data [defaultVertex]) 2
                   (Draw copyingBackend (Data [defaultVertex]) 1 newDrawer)))) 2 =
     Some (resUpdate copyingBackend (Data [defaultVertex, defaultVertex])
            (resSetLen copyingBackend (TrianglesLen (Data [defaultVertex, defaultVertex]))
               [defaultVertex])) \<and>
   resUpdate copyingBackend (Data [defaultVertex, defaultVertex])
     (resSetLen copyingBackend (TrianglesLen (Data [defaultVertex, defaultVertex]))
        [defaultVertex]) = [defaultVertex, defaultVertex]"
proof -
  let ?S = "Data [defaultVertex]"
  let ?T = "Data [defaultVertex, defaultVertex]"
  let ?d1 = "Draw copyingBackend ?S 2 (Draw copyingBackend ?S 1 newDrawer)"
  have ab: "(1::nat) \<noteq> 2" by simp
  have x: "(1::nat) = 1 \<or> (1::nat) = 2" by simp
  have r: "tris ?d1 2 = Some [defaultVertex]"
    by (simp add: Draw_def flush_def newDrawer_def copyingBackend_def Let_def SetLen_def
        Len_def copy_def)
  have u: "resUpdate copyingBackend ?T (resSetLen copyingBackend (TrianglesLen ?T) [defaultVertex])
             = [defaultVertex, defaultVertex]"
    by (simp add: copyingBackend_def SetLen_def Len_def Update_def copy_def Let_def
        eval_nat_numeral)
  from Draw_after_Dirty_updates_every_target [where be = copyingBackend and S = ?S and ?d0.0 = newDrawer and T = ?T,
      OF refl ab x refl] r
  have "tris (Draw copyingBackend ?T 1 (Dirty ?d1)) 2 =
          Some (resUpdate copyingBackend ?T (resSetLen copyingBackend (TrianglesLen ?T) [defaultVertex]))"
    by blast
  with ab u show ?thesis by blast
qed

section \<open>Properties of the rounding\<close>

lemma roundHalfEven_int [simp]: "roundHalfEven (of_int n) = n"
  by (simp add: roundHalfEven_def)

lemma roundHalfEven_neg: "roundHalfEven (- y) = - roundHalfEven y"
proof (cases "y \<in> \<int>")
  case True
  then obtain n where "y = of_int n" by (auto elim: Ints_cases)
  then have "- y = of_int (- n)" by simp
  then show ?thesis using \<open>y = of_int n\<close> by (simp only: roundHalfEven_int)
next
  case False
  then have ne: "y \<noteq> of_int \<lfloor>y\<rfloor>"
    by (metis Ints_of_int)
  then have fl: "\<lfloor>- y\<rfloor> = - \<lfloor>y\<rfloor> - 1"
    by (simp add: floor_minus ceiling_altdef)
  have lt: "of_int \<lfloor>y\<rfloor> < y" using ne
    by (metis of_int_floor_le order_less_le)
  show ?thesis
    unfolding roundHalfEven_def Let_def fl
    using lt by (auto simp add: algebra_simps)
qed

lemma roundHalfEven_bound:
  assumes "\<bar>y\<bar> \<le> of_int n"
  shows "\<bar>roundHalfEven y\<bar> \<le> n"
proof -
  from assms have a: "y \<le> of_int n" and b: "- of_int n \<le> y" by (simp_all add: abs_le_iff)
  have up: "\<And>z m. z \<le> of_int m \<Longrightarrow> roundHalfEven z \<le> m"
  proof -
    fix z :: real and m :: int
    assume zm: "z \<le> of_int m"
    then have fm: "\<lfloor>z\<rfloor> \<le> m" by (simp add: floor_le_iff)
    show "roundHalfEven z \<le> m"
    proof (cases "\<lfloor>z\<rfloor> = m")
      case True
      with zm have "z = of_int m" by (metis of_int_floor_le order_antisym)
      then show ?thesis by simp
    next
      case False
      with fm have "\<lfloor>z\<rfloor> + 1 \<le> m" by simp
      then show ?thesis by (simp add: roundHalfEven_def Let_def)
    qed
  qed
  from up [OF a] have 1: "roundHalfEven y \<le> n" .
  from b have "- y \<le> of_int n" by simp
  from up [OF this] have "- roundHalfEven y \<le> n" by (simp add: roundHalfEven_neg)
  with 1 show ?thesis by (simp add: abs_le_iff)
qed

lemma roundHalfEven_lower:
  assumes "of_int n \<le> y"
  shows "n \<le> roundHalfEven y"
proof -
  have "n \<le> \<lfloor>y\<rfloor>" using assms by (simp add: le_floor_iff)
  then show ?thesis by (simp add: roundHalfEven_def Let_def)
qed

lemma exponent_neg [simp]: "exponent emin (- x) = exponent emin x"
  by (simp add: exponent_def)

lemma exponent_ge: "emin \<le> exponent emin x"
  by (simp add: exponent_def)

lemma exponent_upper:
  assumes "x \<noteq> 0"
  shows "\<bar>x\<bar> < 2 powr of_int (exponent emin x + 1)"
proof -
  have "log 2 \<bar>x\<bar> < of_int \<lfloor>log 2 \<bar>x\<bar>\<rfloor> + 1" by linarith
  also have "\<dots> \<le> of_int (exponent emin x) + 1" by (simp add: exponent_def)
  finally have "2 powr log 2 \<bar>x\<bar> < 2 powr (of_int (exponent emin x) + 1)" by simp
  with assms show ?thesis by simp
qed

lemma exponent_eqI:
  assumes "emin \<le> e" and "2 powr of_int e \<le> \<bar>x\<bar>" and "\<bar>x\<bar> < 2 powr of_int (e + 1)"
  shows "exponent emin x = e"
proof -
  from assms(2) have "0 < \<bar>x\<bar>" by (smt (verit) powr_gt_zero)
  with assms(2,3) have "\<lfloor>log 2 \<bar>x\<bar>\<rfloor> = e"
    by (subst floor_log_eq_powr_iff) simp_all
  with assms(1) show ?thesis by (simp add: exponent_def)
qed

lemma exponent_minI:
  assumes "x \<noteq> 0" and "\<bar>x\<bar> < 2 powr of_int (emin + 1)"
  shows "exponent emin x = emin"
proof -
  from assms have "log 2 \<bar>x\<bar> < of_int (emin + 1)"
    by (subst log_less_iff) simp_all
  then have "\<lfloor>log 2 \<bar>x\<bar>\<rfloor> < emin + 1" by (simp only: floor_less_iff)
  then show ?thesis by (simp add: exponent_def)
qed

lemma exponent_lower:
  assumes "x \<noteq> 0" and "emin < exponent emin x"
  shows "2 powr of_int (exponent emin x) \<le> \<bar>x\<bar>"
proof -
  from assms(2) have e: "exponent emin x = \<lfloor>log 2 \<bar>x\<bar>\<rfloor>" by (simp add: exponent_def max_def split: if_splits)
  have "of_int \<lfloor>log 2 \<bar>x\<bar>\<rfloor> \<le> log 2 \<bar>x\<bar>" by simp
  then have "2 powr of_int \<lfloor>log 2 \<bar>x\<bar>\<rfloor> \<le> 2 powr log 2 \<bar>x\<bar>" by (simp only: powr_le_cancel_iff) 
  with assms(1) e show ?thesis by simp
qed

lemma roundTo_zero [simp]: "roundTo p emin 0 = 0"
  by (simp add: roundTo_def)

lemma roundTo_neg: "roundTo p emin (- x) = - roundTo p emin x"
  by (simp add: roundTo_def Let_def roundHalfEven_neg)

lemma roundTo_exact:
  assumes e: "exponent emin x = e"
    and n: "x = of_int n * 2 powr of_int (e - (p - 1))"
  shows "roundTo p emin x = x"
proof (cases "x = 0")
  case True
  then show ?thesis by simp
next
  case False
  have "x / 2 powr of_int (e - (p - 1)) = of_int n"
    by (subst n) simp
  then show ?thesis using False e n by (simp add: roundTo_def Let_def)
qed

lemma two_powr_add: "2 powr of_int a * 2 powr of_int b = (2::real) powr of_int (a + b)"
  by (simp add: powr_add)

lemma two_powr_nat: "0 \<le> k \<Longrightarrow> (2::real) powr of_int k = of_int (2 ^ nat k)"
proof -
  assume "0 \<le> k"
  then have "(2::real) powr of_int k = 2 powr real (nat k)" by simp
  also have "\<dots> = 2 ^ nat k" by (rule powr_realpow) simp
  finally show ?thesis by simp
qed

lemma roundTo_idem_pos:
  assumes p: "1 \<le> p" and x: "0 < x"
  shows "roundTo p emin (roundTo p emin x) = roundTo p emin x"
proof -
  define e where "e = exponent emin x"
  define u :: real where "u = 2 powr of_int (e - (p - 1))"
  define n where "n = roundHalfEven (x / u)"
  define y where "y = of_int n * u"
  have u0: "0 < u" by (simp add: u_def)
  have y: "roundTo p emin x = y"
    using x by (simp add: roundTo_def Let_def y_def n_def u_def e_def)
  have up: "u * 2 powr of_int p = 2 powr of_int (e + 1)"
    unfolding u_def two_powr_add by simp
  have um: "u * 2 powr of_int (p - 1) = 2 powr of_int e"
    unfolding u_def two_powr_add by simp
  have pw: "(2::real) powr of_int (p - 1) = of_int (2 ^ nat (p - 1))"
    by (rule two_powr_nat) (use p in simp)
  have pp: "(2::real) powr of_int p = of_int (2 ^ nat p)"
    by (rule two_powr_nat) (use p in simp)
  from x have "0 \<le> x / u" using u0 by simp
  then have "of_int 0 \<le> x / u" by simp
  then have n0: "0 \<le> n" unfolding n_def by (rule roundHalfEven_lower)
  from exponent_upper [of x emin] x have "x < 2 powr of_int (e + 1)" by (simp add: e_def)
  then have "x < u * 2 powr of_int p" by (simp only: up)
  then have "x / u < 2 powr of_int p" using u0 by (simp add: field_simps)
  then have "\<bar>x / u\<bar> \<le> of_int (2 ^ nat p)"
    using \<open>0 \<le> x / u\<close> by (simp only: pp abs_of_nonneg)
  then have "\<bar>n\<bar> \<le> 2 ^ nat p" unfolding n_def by (rule roundHalfEven_bound)
  with n0 have nle: "n \<le> 2 ^ nat p" by simp
  have emin: "emin \<le> e" by (simp add: e_def exponent_ge)
  consider "n = 0" | "n = 2 ^ nat p" | "0 < n" "n < 2 ^ nat p"
    using n0 nle by linarith
  then have "roundTo p emin y = y"
  proof cases
    case 1
    then show ?thesis by (simp add: y_def)
  next
    case 2
    have "of_int n = (2::real) powr of_int p" using 2 by (simp only: pp)
    then have "y = u * 2 powr of_int p" by (simp add: y_def mult.commute)
    then have yv: "y = 2 powr of_int (e + 1)" by (simp only: up)
    have ex: "exponent emin y = e + 1"
    proof (rule exponent_eqI)
      show "emin \<le> e + 1" using emin by simp
      show "2 powr of_int (e + 1) \<le> \<bar>y\<bar>" by (simp add: yv)
      show "\<bar>y\<bar> < 2 powr of_int (e + 1 + 1)" by (simp add: yv)
    qed
    have "2 powr of_int (p - 1) * 2 powr of_int (e + 1 - (p - 1)) = (2::real) powr of_int (e + 1)"
      (is "?h")
      using two_powr_add [of "p - 1" "e + 1 - (p - 1)"] by (simp add: add.commute)
    have "y = of_int (2 ^ nat (p - 1)) * 2 powr of_int (e + 1 - (p - 1))"
      by (simp only: yv \<open>?h\<close> [symmetric] pw)
    with ex show ?thesis by (rule roundTo_exact)
  next
    case 3
    have ypos: "0 < y" using 3 u0 by (simp add: y_def)
    have "(of_int n :: real) < of_int (2 ^ nat p)" using 3 by (simp only: of_int_less_iff)
    then have "of_int n < (2::real) powr of_int p" by (simp only: pp)
    then have "y < u * 2 powr of_int p" using u0 by (simp add: y_def mult.commute)
    then have yup: "y < 2 powr of_int (e + 1)" by (simp only: up)
    have ex: "exponent emin y = e"
    proof (cases "e = emin")
      case True
      have "exponent emin y = emin"
        by (rule exponent_minI) (use ypos yup True in simp_all)
      with True show ?thesis by simp
    next
      case False
      with emin have "emin < exponent emin x" by (simp add: e_def)
      from exponent_lower [OF _ this] x have "2 powr of_int e \<le> x" by (simp add: e_def)
      then have "u * 2 powr of_int (p - 1) \<le> x" by (simp only: um)
      then have "2 powr of_int (p - 1) \<le> x / u" using u0 by (simp add: field_simps)
      then have "of_int (2 ^ nat (p - 1)) \<le> x / u" by (simp only: pw)
      then have "2 ^ nat (p - 1) \<le> n" unfolding n_def by (rule roundHalfEven_lower)
      then have "(of_int (2 ^ nat (p - 1)) :: real) \<le> of_int n" by (simp only: of_int_le_iff)
      then have "(2::real) powr of_int (p - 1) \<le> of_int n" by (simp only: pw)
      then have "u * 2 powr of_int (p - 1) \<le> y" using u0 by (simp add: y_def mult.commute)
      then have "2 powr of_int e \<le> y" by (simp only: um)
      show ?thesis
        by (rule exponent_eqI) (use emin \<open>2 powr of_int e \<le> y\<close> yup ypos in simp_all)
    qed
    show ?thesis using ex by (rule roundTo_exact) (simp add: y_def u_def)
  qed
  with y show ?thesis by simp
qed

lemma roundTo_idem:
  assumes "1 \<le> p"
  shows "roundTo p emin (roundTo p emin x) = roundTo p emin x"
proof -
  consider "x = 0" | "0 < x" | "0 < - x" by linarith
  then show ?thesis
  proof cases
    case 1
    then show ?thesis by simp
  next
    case 2
    with assms show ?thesis by (rule roundTo_idem_pos)
  next
    case 3
    from roundTo_idem_pos [OF assms 3, of emin] show ?thesis
      by (simp add: roundTo_neg)
  qed
qed


lemma roundTo_eval:
  assumes "emin \<le> e" and "2 powr of_int e \<le> \<bar>x\<bar>" and "\<bar>x\<bar> < 2 powr of_int (e + 1)"
  shows "roundTo p emin x =
           of_int (roundHalfEven (x / 2 powr of_int (e - (p - 1)))) * 2 powr of_int (e - (p - 1))"
proof -
  from assms have "exponent emin x = e" by (rule exponent_eqI)
  moreover from assms(2) have "x \<noteq> 0" by (smt (verit) powr_gt_zero)
  ultimately show ?thesis by (simp add: roundTo_def Let_def)
qed

section \<open>Properties of the arithmetic of float32 and float64\<close>

lemma toFloat32_zero [simp]: "toFloat32 0 = Finite 0"
  by (simp add: toFloat32_def)

lemma roundTo_one: "emin \<le> 0 \<Longrightarrow> 1 \<le> p \<Longrightarrow> roundTo p emin 1 = 1"
proof -
  assume e: "emin \<le> 0" and p: "1 \<le> p"
  have ex: "exponent emin 1 = 0"
    by (rule exponent_eqI) (use e in simp_all)
  have "2 powr of_int (p - 1) * 2 powr of_int (0 - (p - 1)) = (2::real) powr of_int 0"
    unfolding two_powr_add by simp
  moreover have "(2::real) powr of_int (p - 1) = of_int (2 ^ nat (p - 1))"
    by (rule two_powr_nat) (use p in simp)
  ultimately have "1 = of_int (2 ^ nat (p - 1)) * (2::real) powr of_int (0 - (p - 1))"
    by simp
  with ex show ?thesis by (rule roundTo_exact)
qed

lemma toFloat32_one [simp]: "toFloat32 1 = Finite 1"
  by (simp add: toFloat32_def roundTo_one)

lemma toFloat32_neg: "toFloat32 (- x) = neg (toFloat32 x)"
  by (simp add: toFloat32_def roundTo_neg Let_def)

lemma toFloat32_idem: "toFloat32 x = Finite r \<Longrightarrow> toFloat32 r = Finite r"
proof -
  assume a: "toFloat32 x = Finite r"
  then have r: "r = roundTo 24 (- 126) x" and b: "\<bar>r\<bar> < 2 ^ 128"
    by (simp_all add: toFloat32_def Let_def split: if_splits)
  have "roundTo 24 (- 126) r = r" unfolding r by (rule roundTo_idem) simp
  with b show ?thesis by (simp add: toFloat32_def Let_def)
qed

lemma isFloat32_toFloat32 [simp]: "isFloat32 (toFloat32 x)"
  by (cases "toFloat32 x") (simp_all add: toFloat32_idem)

lemma isFloat32_float32 [simp]: "isFloat32 (float32 a)"
  by (cases a) simp_all

lemma isFloat32_mul32 [simp]: "isFloat32 (mul32 a b)"
  by (cases a; cases b) simp_all

lemma isFloat32_add32 [simp]: "isFloat32 (add32 a b)"
  by (cases a; cases b) simp_all

lemma isFloat32_neg: "isFloat32 a \<Longrightarrow> isFloat32 (neg a)"
  by (cases a) (simp_all add: toFloat32_neg)

lemma isFloat32_consts [simp]: "isFloat32 (Finite 0)" "isFloat32 (Finite 1)"
  by simp_all

lemma mul32_one_left: "isFloat32 a \<Longrightarrow> mul32 (Finite 1) a = a"
  by (cases a) simp_all

lemma mul32_one_right: "isFloat32 a \<Longrightarrow> mul32 a (Finite 1) = a"
  by (cases a) simp_all

lemma add32_zero_left: "isFloat32 a \<Longrightarrow> add32 (Finite 0) a = a"
  by (cases a) simp_all

lemma add32_zero_right: "isFloat32 a \<Longrightarrow> add32 a (Finite 0) = a"
  by (cases a) simp_all

lemma mul32_zero_left [simp]: "mul32 (Finite 0) (Finite x) = Finite 0"
  by simp

lemma mul32_zero_right [simp]: "mul32 (Finite x) (Finite 0) = Finite 0"
  by simp

lemma mul32_NotFinite_right [simp]: "mul32 a NotFinite = NotFinite"
  by (cases a) simp_all

lemma add32_NotFinite_right [simp]: "add32 a NotFinite = NotFinite"
  by (cases a) simp_all




lemma toFloat64_zero [simp]: "toFloat64 0 = Finite 0"
  by (simp add: toFloat64_def)

lemma toFloat64_one [simp]: "toFloat64 1 = Finite 1"
  by (simp add: toFloat64_def roundTo_one)

lemma mul32_NotFinite_left [simp]: "mul32 NotFinite a = NotFinite"
  by simp

lemma add32_NotFinite_left [simp]: "add32 NotFinite a = NotFinite"
  by simp



lemma toFloat32_tenth:
  "toFloat32 (3602879701896397 / 36028797018963968) = Finite (13421773 / 134217728)"
proof -
  let ?x = "3602879701896397 / 36028797018963968 :: real"
  have "roundTo 24 (- 126) ?x =
          of_int (roundHalfEven (?x / 2 powr of_int (- 4 - (24 - 1)))) * 2 powr of_int (- 4 - (24 - 1))"
    by (rule roundTo_eval) (simp_all add: powr_neg_numeral)
  also have "\<dots> = 13421773 / 134217728"
    by (simp add: powr_neg_numeral roundHalfEven_def Let_def)
  finally show ?thesis by (simp add: toFloat32_def Let_def)
qed

section \<open>Properties of Transform\<close>

lemma float_cases6:
  obtains (finite) a b c d e f where "s1 = Finite a" "s2 = Finite b" "s3 = Finite c"
      "s4 = Finite d" "s5 = Finite e" "s6 = Finite f"
  | (notfinite) "s1 = NotFinite \<or> s2 = NotFinite \<or> s3 = NotFinite \<or> s4 = NotFinite \<or>
                 s5 = NotFinite \<or> s6 = NotFinite"
  by (cases s1; cases s2; cases s3; cases s4; cases s5; cases s6) auto

lemma Rotate3DZ_zero: "Rotate3DZ (float32 (Finite 0)) = Ident3"
  by (simp add: Rotate3DZ_def float64_def Ident3_def Let_def)

lemma Mul3_Ident3_Ident3: "Mul3 Ident3 Ident3 = Ident3"
  by (simp add: Ident3_def dot3_def)

lemma Translate2D_zero: "Translate2D (float32 (Finite 0)) (float32 (Finite 0)) = Ident3"
  by (simp add: Translate2D_def Ident3_def)

lemma Mat_axis:
  assumes "pos t = V (Finite 0) (Finite 0)" and "rot t = Finite 0"
  shows "Mat t = Mul3 (Mul3 Ident3 (Scale2D (float32 (X (sca t))) (float32 (Y (sca t)))))
                      (Translate2D (float32 (neg (X (anc t)))) (float32 (neg (Y (anc t)))))"
  using assms
  by (simp add: Mat_def Let_def X_def Y_def V_def Rotate3DZ_zero [simplified]
      Translate2D_zero [simplified] Mul3_Ident3_Ident3)

lemma Project_finite:
  assumes "toFloat32 a = Finite a" and "toFloat32 b = Finite b"
  shows "Mul3x1 (Mul3 (Mul3 Ident3 (Scale2D (Finite a) (Finite b)))
                      (Translate2D (Finite c) (Finite d)))
                (Finite e, Finite f, Finite 1) =
         (add32 (mul32 (Finite a) (Finite e)) (mul32 (Finite a) (Finite c)),
          add32 (mul32 (Finite b) (Finite f)) (mul32 (Finite b) (Finite d)),
          Finite 1)"
  using assms
  by (simp add: Ident3_def Scale2D_def Translate2D_def dot3_def
      add32_zero_right add32_zero_left mul32_one_right)

lemma Project_notfinite:
  assumes "s1 = NotFinite \<or> s2 = NotFinite \<or> s3 = NotFinite \<or> s4 = NotFinite \<or>
           s5 = NotFinite \<or> s6 = NotFinite"
  shows "fst (Mul3x1 (Mul3 (Mul3 Ident3 (Scale2D s1 s2)) (Translate2D s3 s4))
                      (s5, s6, Finite 1)) = NotFinite \<and>
         fst (snd (Mul3x1 (Mul3 (Mul3 Ident3 (Scale2D s1 s2)) (Translate2D s3 s4))
                      (s5, s6, Finite 1))) = NotFinite"
  using assms
  by (elim disjE) (simp_all add: Ident3_def Scale2D_def Translate2D_def dot3_def)

lemma Project_axis:
  assumes p: "pos t = V (Finite 0) (Finite 0)" and r: "rot t = Finite 0"
  shows "Project t v =
     (if float32 (X (sca t)) = NotFinite \<or> float32 (Y (sca t)) = NotFinite \<or>
         float32 (neg (X (anc t))) = NotFinite \<or> float32 (neg (Y (anc t))) = NotFinite \<or>
         float32 (X v) = NotFinite \<or> float32 (Y v) = NotFinite
      then V NotFinite NotFinite
      else V (add32 (mul32 (float32 (X (sca t))) (float32 (X v)))
                    (mul32 (float32 (X (sca t))) (float32 (neg (X (anc t))))))
             (add32 (mul32 (float32 (Y (sca t))) (float32 (Y v)))
                    (mul32 (float32 (Y (sca t))) (float32 (neg (Y (anc t)))))))"
proof -
  define sx where "sx = float32 (X (sca t))"
  define sy where "sy = float32 (Y (sca t))"
  define tx where "tx = float32 (neg (X (anc t)))"
  define ty where "ty = float32 (neg (Y (anc t)))"
  define vx where "vx = float32 (X v)"
  define vy where "vy = float32 (Y v)"
  have P: "Project t v =
      (let pro = Mul3x1 (Mul3 (Mul3 Ident3 (Scale2D sx sy)) (Translate2D tx ty)) (vx, vy, Finite 1)
       in V (fst pro) (fst (snd pro)))"
    by (simp add: Project_def Mat_axis [OF p r] float64_def Let_def
        sx_def sy_def tx_def ty_def vx_def vy_def)
  have fx: "isFloat32 sx" and fy: "isFloat32 sy"
    by (simp_all add: sx_def sy_def)
  have "Project t v =
     (if sx = NotFinite \<or> sy = NotFinite \<or> tx = NotFinite \<or> ty = NotFinite \<or>
         vx = NotFinite \<or> vy = NotFinite
      then V NotFinite NotFinite
      else V (add32 (mul32 sx vx) (mul32 sx tx)) (add32 (mul32 sy vy) (mul32 sy ty)))"
  proof (cases rule: float_cases6 [of sx sy tx ty vx vy])
    case (finite a b c d e f)
    from fx fy finite have "toFloat32 a = Finite a" and "toFloat32 b = Finite b" by simp_all
    from Project_finite [OF this, of c d e f] finite show ?thesis
      by (simp add: P)
  next
    case notfinite
    from Project_notfinite [OF this] notfinite show ?thesis
      by (simp add: P Let_def)
  qed
  then show ?thesis
    unfolding sx_def sy_def tx_def ty_def vx_def vy_def .
qed

lemma Project_ZT_formula:
  "Project ZT v =
     (if float32 (X v) = NotFinite \<or> float32 (Y v) = NotFinite then V NotFinite NotFinite
      else V (float32 (X v)) (float32 (Y v)))"
proof -
  have p: "pos ZT = V (Finite 0) (Finite 0)" and r: "rot ZT = Finite 0"
    by (simp_all add: ZT_def Transform_Scale_def)
  have s: "sca ZT = V (Finite 1) (Finite 1)" and a: "anc ZT = V (Finite 0) (Finite 0)"
    by (simp_all add: ZT_def Transform_Scale_def)
  show ?thesis
    unfolding Project_axis [OF p r] s a
    by (simp add: X_def Y_def V_def mul32_one_left add32_zero_right)
qed


text \<open>
  C6 as stated fails: \<open>Project\<close> converts the coordinates to \<open>float32\<close>. The
  \<open>float64\<close> nearest to one tenth is not a \<open>float32\<close>, and \<open>ZT\<close> projects it onto the
  \<open>float32\<close> nearest to it, which is another number.
\<close>

theorem ZT_Project_not_exact_counterexample:
  "Project ZT (V (Finite (3602879701896397 / 36028797018963968)) (Finite 0)) =
     V (Finite (13421773 / 134217728)) (Finite 0) \<and>
   Project ZT (V (Finite (3602879701896397 / 36028797018963968)) (Finite 0)) \<noteq>
     V (Finite (3602879701896397 / 36028797018963968)) (Finite 0)"
  unfolding Project_ZT_formula by (simp add: X_def Y_def V_def toFloat32_tenth)

text \<open>
  C6, amended: \<open>ZT\<close> projects a point onto the point whose coordinates are those of \<open>v\<close>
  rounded to \<open>float32\<close> (both are not finite once one of the rounded coordinates is not
  finite). So \<open>ZT.Project(v)\<close> is \<open>v\<close> for every point \<open>v\<close> whose coordinates are finite
  values of \<open>float32\<close>.
\<close>

theorem ZT_Project_rounds_to_float32:
  "Project ZT v =
     (if float32 (X v) = NotFinite \<or> float32 (Y v) = NotFinite then V NotFinite NotFinite
      else V (float32 (X v)) (float32 (Y v))) \<and>
   (float32 (X v) = X v \<and> float32 (Y v) = Y v \<and> X v \<noteq> NotFinite \<and> Y v \<noteq> NotFinite
      \<longrightarrow> Project ZT v = v)"
  unfolding Project_ZT_formula by (simp add: X_def Y_def V_def)

theorem ZT_Project_rounds_to_float32_witness:
  "float32 (X (V (Finite 1) (Finite 0))) = X (V (Finite 1) (Finite 0)) \<and>
   float32 (Y (V (Finite 1) (Finite 0))) = Y (V (Finite 1) (Finite 0)) \<and>
   X (V (Finite 1) (Finite 0)) \<noteq> NotFinite \<and> Y (V (Finite 1) (Finite 0)) \<noteq> NotFinite \<and>
   Project ZT (V (Finite 1) (Finite 0)) = V (Finite 1) (Finite 0)"
proof -
  have h: "float32 (X (V (Finite 1) (Finite 0))) = X (V (Finite 1) (Finite 0)) \<and>
   float32 (Y (V (Finite 1) (Finite 0))) = Y (V (Finite 1) (Finite 0)) \<and>
   X (V (Finite 1) (Finite 0)) \<noteq> NotFinite \<and> Y (V (Finite 1) (Finite 0)) \<noteq> NotFinite"
    by (simp add: X_def Y_def V_def)
  from ZT_Project_rounds_to_float32 [of "V (Finite 1) (Finite 0)"] h
  have "Project ZT (V (Finite 1) (Finite 0)) = V (Finite 1) (Finite 0)" by blast
  with h show ?thesis by blast
qed










end
